theory Spec2Isabelle
  imports Complex_Main "HOL-Library.Multiset"
begin

section \<open>The Slack reader: data model\<close>

text \<open>
  The development embeds \<^verbatim>\<open>llama_index/readers/slack/base.py\<close>: the class
  \<^verbatim>\<open>SlackReader\<close> with its constructor, the two pagination loops
  \<^verbatim>\<open>_read_message\<close> and \<^verbatim>\<open>_read_channel\<close>, the orchestration
  \<^verbatim>\<open>load_data\<close> and the channel resolution helpers.

  Timestamps are Python floats. The code only tests them for presence, for
  truthiness (a float is falsy exactly when it is zero) and copies them into
  requests, so they are modelled as reals; the rendering \<^verbatim>\<open>str(...)\<close> of a
  bound placed in a request is not modelled.
\<close>

type_synonym timestamp = real

text \<open>A \<^verbatim>\<open>datetime\<close> is identified with the value of its \<^verbatim>\<open>timestamp()\<close> method.\<close>

datatype datetime = Datetime (timestamp: timestamp)

text \<open>The exceptions that can leave the methods of the class.\<close>

datatype py_error =
    KeyError string
  | ValueError string
  | ValidationError string

text \<open>The pydantic fields of the reader, as set by \<^verbatim>\<open>super().__init__\<close>.\<close>

record slack_reader =
  slack_token :: string
  earliest_date_timestamp :: "timestamp option"
  latest_date_timestamp :: timestamp

text \<open>The answer of \<^verbatim>\<open>api_test\<close>: the fields \<^verbatim>\<open>res["ok"]\<close> and \<^verbatim>\<open>res["error"]\<close>.\<close>

record api_test_result =
  ok :: bool
  api_error :: string

section \<open>Construction\<close>

text \<open>
  Python's \<^verbatim>\<open>a or b\<close> for a float \<^verbatim>\<open>a\<close> and an optional float \<^verbatim>\<open>b\<close>: the left
  operand when it is truthy (non-zero), the right operand otherwise.
\<close>

definition float_or :: "timestamp \<Rightarrow> timestamp option \<Rightarrow> timestamp option" where
  "float_or a b = (if a \<noteq> 0 then Some a else b)"

text \<open>\<^verbatim>\<open>None or b\<close> is \<^verbatim>\<open>b\<close>.\<close>

definition none_or :: "'a option \<Rightarrow> 'a option" where
  "none_or b = b"

text \<open>
  \<^verbatim>\<open>SlackReader.__init__\<close>. The process environment is the value of
  \<^verbatim>\<open>SLACK_BOT_TOKEN\<close> (absent: \<^verbatim>\<open>os.environ[...]\<close> raises \<^verbatim>\<open>KeyError\<close>),
  the clock is the value of \<^verbatim>\<open>datetime.now().timestamp()\<close>, and the answer
  of the connectivity check \<^verbatim>\<open>api_test\<close> is given. The \<^verbatim>\<open>ssl\<close> argument only
  selects how the web client is built and is left out. The checks run in the
  order of the source; the second test of the token (line 58) is kept, though
  a token read from the environment is never \<^verbatim>\<open>None\<close>.
\<close>

definition init ::
  "string option \<Rightarrow> timestamp \<Rightarrow> api_test_result \<Rightarrow>
   string option \<Rightarrow> datetime option \<Rightarrow> datetime option \<Rightarrow>
   timestamp option \<Rightarrow> timestamp option \<Rightarrow> py_error + slack_reader" where
  "init environ now res token earliest_date latest_date earliest_ts latest_ts =
    (case (case token of
             None \<Rightarrow> (case environ of
                        None \<Rightarrow> Inl (KeyError ''SLACK_BOT_TOKEN'')
                      | Some v \<Rightarrow> Inr (Some v))
           | Some t \<Rightarrow> Inr (Some t)) of
       Inl e \<Rightarrow> Inl e
     | Inr None \<Rightarrow>
         Inl (ValueError
           ''Must specify `slack_token` or set environment variable `SLACK_BOT_TOKEN`.'')
     | Inr (Some tok) \<Rightarrow>
        if latest_date \<noteq> None \<and> earliest_date = None
        then Inl (ValueError ''Must specify `earliest_date` if `latest_date` is specified.'')
        else
          let earliest_ts' =
                (case earliest_date of
                   Some d \<Rightarrow> Some (timestamp d)
                 | None \<Rightarrow> none_or earliest_ts);
              latest_ts' =
                (case latest_date of
                   Some d \<Rightarrow> Some (timestamp d)
                 | None \<Rightarrow> float_or now latest_ts)
          in if \<not> ok res
             then Inl (ValueError (''Error initializing Slack API: '' @ api_error res))
             else (case latest_ts' of
                     None \<Rightarrow> Inl (ValidationError ''latest_date_timestamp'')
                   | Some l \<Rightarrow>
                       Inr \<lparr>slack_token = tok,
                            earliest_date_timestamp = earliest_ts',
                            latest_date_timestamp = l\<rparr>))"

text \<open>
  The spec's taxonomy calls every failure of construction an initialization
  error: a credential that cannot be resolved, a rejected window and a failed
  connectivity check.
\<close>

fun is_initialization_error :: "py_error + slack_reader \<Rightarrow> bool" where
  "is_initialization_error (Inl e) = True"
| "is_initialization_error (Inr r) = False"

section \<open>The transport\<close>

text \<open>
  A message of a page, with the two keys the code reads:
  \<^verbatim>\<open>message["ts"]\<close> and \<^verbatim>\<open>message["text"]\<close>.
\<close>

record message =
  ts :: string
  text_msg :: string

text \<open>
  A successful answer of \<^verbatim>\<open>conversations_replies\<close> or
  \<^verbatim>\<open>conversations_history\<close>, with the keys \<^verbatim>\<open>messages\<close> and \<^verbatim>\<open>has_more\<close>
  the platform always sends. The field \<open>response_metadata\<close> is the value of
  \<^verbatim>\<open>result["response_metadata"]["next_cursor"]\<close>, absent when the lookup
  would raise \<^verbatim>\<open>KeyError\<close>.
\<close>

record page =
  messages :: "message list"
  has_more :: bool
  response_metadata :: "string option"

text \<open>
  A \<^verbatim>\<open>SlackApiError\<close>: \<open>error\<close> is \<^verbatim>\<open>e.response["error"]\<close> and
  \<open>retry_after\<close> is the header \<^verbatim>\<open>e.response.headers["retry-after"]\<close>, read
  as the number \<^verbatim>\<open>int(...)\<close> makes of it, absent when the header is.
\<close>

record slack_api_error =
  error :: string
  retry_after :: "nat option"

text \<open>
  The keyword arguments of a page request. \<open>thread_ts\<close> is the argument
  \<^verbatim>\<open>ts\<close> of a replies request; \<open>latest\<close> and \<open>oldest\<close> are absent when the
  key is not passed at all.
\<close>

record request =
  channel :: string
  thread_ts :: "string option"
  cursor :: "string option"
  latest :: "timestamp option"
  oldest :: "timestamp option"

text \<open>A channel as listed by \<^verbatim>\<open>conversations_list\<close>: \<^verbatim>\<open>channel["id"]\<close>, \<^verbatim>\<open>channel["name"]\<close>.\<close>

record slack_channel =
  id_chan :: string
  name :: string

text \<open>
  What the reader does to the outside world, in order: the requests it
  issues, the calls of \<^verbatim>\<open>time.sleep\<close> with their duration in seconds, and
  the records it logs, by level.
\<close>

datatype event =
    ConversationsReplies request
  | ConversationsHistory request
  | ConversationsList
  | Sleep nat
  | LogInfo
  | LogWarning
  | LogError

text \<open>
  The web client. The platform is outside the program, so each endpoint is a
  parameter: its answer may depend on the request and on everything that
  happened before (the events so far, which include the time slept).
\<close>

record web_client =
  conversations_replies :: "event list \<Rightarrow> request \<Rightarrow> slack_api_error + page"
  conversations_history :: "event list \<Rightarrow> request \<Rightarrow> slack_api_error + page"
  conversations_list :: "event list \<Rightarrow> slack_api_error + slack_channel list"

section \<open>Reading a thread\<close>

text \<open>\<^verbatim>\<open>sep.join(xs)\<close>.\<close>

fun join :: "string \<Rightarrow> string list \<Rightarrow> string" where
  "join sep [] = []"
| "join sep [x] = x"
| "join sep (x # y # ys) = x @ sep @ join sep (y # ys)"

text \<open>The delimiter \<^verbatim>\<open>"\n\n"\<close>.\<close>

definition blank_line :: string where
  "blank_line = [CHR 0x0A, CHR 0x0A]"

text \<open>
  The request of \<^verbatim>\<open>_read_message\<close> (lines 104 to 121): without an earliest
  bound the call passes the channel, the thread key and the cursor only; with
  one it passes both bounds.
\<close>

definition replies_request :: "slack_reader \<Rightarrow> string \<Rightarrow> string \<Rightarrow> string option \<Rightarrow> request" where
  "replies_request self channel_id message_ts next_cursor =
    (if earliest_date_timestamp self = None
     then \<lparr>channel = channel_id, thread_ts = Some message_ts, cursor = next_cursor,
           latest = None, oldest = None\<rparr>
     else
       let kwargs = \<lparr>channel = channel_id, thread_ts = Some message_ts, cursor = next_cursor,
                     latest = Some (latest_date_timestamp self), oldest = None\<rparr>
       in if earliest_date_timestamp self \<noteq> None
          then kwargs\<lparr>oldest := earliest_date_timestamp self\<rparr>
          else kwargs)"

text \<open>
  The loop of \<^verbatim>\<open>_read_message\<close>. The fuel bounds the number of iterations:
  \<open>None\<close> is a loop still running when the fuel is spent. An iteration
  issues the request; a page extends \<open>messages_text\<close> and either ends the loop
  or moves the cursor; a rate-limit error sleeps and iterates again; any other
  \<^verbatim>\<open>SlackApiError\<close> is logged and breaks out of the loop.
\<close>

fun read_message_loop ::
  "nat \<Rightarrow> web_client \<Rightarrow> slack_reader \<Rightarrow> string \<Rightarrow> string \<Rightarrow> string list \<Rightarrow> string option \<Rightarrow>
   event list \<Rightarrow> (py_error + string list \<times> event list) option" where
  "read_message_loop 0 client self channel_id message_ts messages_text next_cursor w = None"
| "read_message_loop (Suc n) client self channel_id message_ts messages_text next_cursor w =
    (let req = replies_request self channel_id message_ts next_cursor;
         w1 = w @ [ConversationsReplies req]
     in case conversations_replies client w req of
          Inr result \<Rightarrow>
            (let messages_text' = messages_text @ map text_msg (messages result)
             in if \<not> has_more result then Some (Inr (messages_text', w1))
                else (case response_metadata result of
                        None \<Rightarrow> Some (Inl (KeyError ''response_metadata''))
                      | Some c \<Rightarrow>
                          read_message_loop n client self channel_id message_ts
                            messages_text' (Some c) w1))
        | Inl e \<Rightarrow>
            if error e = ''ratelimited''
            then (case retry_after e of
                    None \<Rightarrow> Some (Inl (KeyError ''retry-after''))
                  | Some d \<Rightarrow>
                      read_message_loop n client self channel_id message_ts
                        messages_text next_cursor (w1 @ [LogError, Sleep d]))
            else Some (Inr (messages_text, w1 @ [LogError])))"

text \<open>\<^verbatim>\<open>_read_message\<close>: the loop from an empty list and no cursor, then the join.\<close>

definition read_message ::
  "nat \<Rightarrow> web_client \<Rightarrow> slack_reader \<Rightarrow> string \<Rightarrow> string \<Rightarrow> event list \<Rightarrow>
   (py_error + string \<times> event list) option" where
  "read_message n client self channel_id message_ts w =
    (case read_message_loop n client self channel_id message_ts [] None w of
       None \<Rightarrow> None
     | Some (Inl e) \<Rightarrow> Some (Inl e)
     | Some (Inr (messages_text, w')) \<Rightarrow> Some (Inr (join blank_line messages_text, w')))"

section \<open>Reading a channel\<close>

text \<open>
  The request of \<^verbatim>\<open>_read_channel\<close> (lines 155 to 166): the upper bound is
  always in the keyword arguments, the lower bound when it is set.
\<close>

definition history_request :: "slack_reader \<Rightarrow> string \<Rightarrow> string option \<Rightarrow> request" where
  "history_request self channel_id next_cursor =
    (let kwargs = \<lparr>channel = channel_id, thread_ts = None, cursor = next_cursor,
                   latest = Some (latest_date_timestamp self), oldest = None\<rparr>
     in if earliest_date_timestamp self \<noteq> None
        then kwargs\<lparr>oldest := earliest_date_timestamp self\<rparr>
        else kwargs)"

text \<open>
  The generator \<^verbatim>\<open>self._read_message(channel_id, message["ts"]) for message in
  conversation_history\<close>, consumed by \<^verbatim>\<open>extend\<close>: the threads are read one after
  the other.
\<close>

fun read_messages ::
  "nat \<Rightarrow> web_client \<Rightarrow> slack_reader \<Rightarrow> string \<Rightarrow> message list \<Rightarrow> event list \<Rightarrow>
   (py_error + string list \<times> event list) option" where
  "read_messages n client self channel_id [] w = Some (Inr ([], w))"
| "read_messages n client self channel_id (m # ms) w =
    (case read_message n client self channel_id (ts m) w of
       None \<Rightarrow> None
     | Some (Inl e) \<Rightarrow> Some (Inl e)
     | Some (Inr (t, w')) \<Rightarrow>
         (case read_messages n client self channel_id ms w' of
            None \<Rightarrow> None
          | Some (Inl e) \<Rightarrow> Some (Inl e)
          | Some (Inr (texts, w'')) \<Rightarrow> Some (Inr (t # texts, w''))))"

text \<open>
  The loop of \<^verbatim>\<open>_read_channel\<close>. The threads of a page are read with the
  fuel that is left, and what they raise is not a \<^verbatim>\<open>SlackApiError\<close>, so it
  leaves the method. The handler of \<^verbatim>\<open>SlackApiError\<close> has no \<^verbatim>\<open>break\<close> in
  its second branch (line 189): after the log record the \<^verbatim>\<open>while True\<close>
  iterates again, with the cursor it had.
\<close>

fun read_channel_loop ::
  "nat \<Rightarrow> web_client \<Rightarrow> slack_reader \<Rightarrow> string \<Rightarrow> string list \<Rightarrow> string option \<Rightarrow>
   event list \<Rightarrow> (py_error + string list \<times> event list) option" where
  "read_channel_loop 0 client self channel_id result_messages next_cursor w = None"
| "read_channel_loop (Suc n) client self channel_id result_messages next_cursor w =
    (let req = history_request self channel_id next_cursor;
         w1 = w @ [ConversationsHistory req]
     in case conversations_history client w req of
          Inr result \<Rightarrow>
            (case read_messages n client self channel_id (messages result) (w1 @ [LogInfo]) of
               None \<Rightarrow> None
             | Some (Inl e) \<Rightarrow> Some (Inl e)
             | Some (Inr (texts, w2)) \<Rightarrow>
                 (let result_messages' = result_messages @ texts
                  in if \<not> has_more result then Some (Inr (result_messages', w2))
                     else (case response_metadata result of
                             None \<Rightarrow> Some (Inl (KeyError ''response_metadata''))
                           | Some c \<Rightarrow>
                               read_channel_loop n client self channel_id
                                 result_messages' (Some c) w2)))
        | Inl e \<Rightarrow>
            if error e = ''ratelimited''
            then (case retry_after e of
                    None \<Rightarrow> Some (Inl (KeyError ''retry-after''))
                  | Some d \<Rightarrow>
                      read_channel_loop n client self channel_id
                        result_messages next_cursor (w1 @ [LogError, Sleep d]))
            else read_channel_loop n client self channel_id
                   result_messages next_cursor (w1 @ [LogError]))"

text \<open>\<^verbatim>\<open>_read_channel\<close>: the loop, then the join in the order asked for.\<close>

definition read_channel ::
  "nat \<Rightarrow> web_client \<Rightarrow> slack_reader \<Rightarrow> string \<Rightarrow> bool \<Rightarrow> event list \<Rightarrow>
   (py_error + string \<times> event list) option" where
  "read_channel n client self channel_id reverse_chronological w =
    (case read_channel_loop n client self channel_id [] None w of
       None \<Rightarrow> None
     | Some (Inl e) \<Rightarrow> Some (Inl e)
     | Some (Inr (result_messages, w')) \<Rightarrow>
         Some (Inr (if reverse_chronological
                    then join blank_line result_messages
                    else join blank_line (rev result_messages), w')))"

section \<open>Resolving channel patterns\<close>

text \<open>
  Python's module \<^verbatim>\<open>re\<close> is outside the program and is a parameter:
  \<open>re_compile p\<close> holds when \<^verbatim>\<open>re.compile(p)\<close> returns (and fails when it
  raises \<^verbatim>\<open>re.error\<close>), \<open>re_match p s\<close> holds when \<^verbatim>\<open>re.match(p, s)\<close> returns
  a match object, that is when the pattern matches at the start of \<open>s\<close>.
\<close>

record regex_module =
  re_compile :: "string \<Rightarrow> bool"
  re_match :: "string \<Rightarrow> string \<Rightarrow> bool"

definition is_regex :: "regex_module \<Rightarrow> string \<Rightarrow> bool" where
  "is_regex re pattern = (if re_compile re pattern then True else False)"

text \<open>
  \<^verbatim>\<open>_list_channels\<close>: a \<^verbatim>\<open>SlackApiError\<close> is logged and the empty list is
  returned.
\<close>

definition list_channels :: "web_client \<Rightarrow> event list \<Rightarrow> slack_channel list \<times> event list" where
  "list_channels client w =
    (case conversations_list client w of
       Inr channels \<Rightarrow> (channels, w @ [ConversationsList])
     | Inl e \<Rightarrow> ([], w @ [ConversationsList, LogError]))"

text \<open>
  \<^verbatim>\<open>_filter_channels\<close>: the channels whose name is among the exact names,
  followed by one entry for every pair of a channel and a regex pattern that
  matches it, in the order of the two nested loops.
\<close>

definition filter_channels ::
  "regex_module \<Rightarrow> slack_channel list \<Rightarrow> string list \<Rightarrow> slack_channel list" where
  "filter_channels re channels patterns =
    (let regex_patterns = [pattern \<leftarrow> patterns. is_regex re pattern];
         exact_names = [pattern \<leftarrow> patterns. \<not> is_regex re pattern];
         filtered_channels = [channel \<leftarrow> channels. name channel \<in> set exact_names]
     in filtered_channels @
        concat (map (\<lambda>channel.
                  concat (map (\<lambda>pattern.
                            if re_match re pattern (name channel) then [channel] else [])
                          regex_patterns))
                channels))"

definition get_channel_ids ::
  "web_client \<Rightarrow> regex_module \<Rightarrow> string list \<Rightarrow> event list \<Rightarrow> string list \<times> event list" where
  "get_channel_ids client re patterns w =
    (case list_channels client w of
       (channels, w1) \<Rightarrow>
         (let filtered_channels = filter_channels re channels patterns
          in (map id_chan filtered_channels, w1 @ [LogInfo, LogInfo])))"

section \<open>Loading documents\<close>

text \<open>
  A \<^verbatim>\<open>Document\<close> as \<^verbatim>\<open>load_data\<close> builds it: the keyword arguments
  \<^verbatim>\<open>id_\<close>, \<^verbatim>\<open>text\<close> and \<^verbatim>\<open>metadata\<close>.
\<close>

record document =
  id_doc :: string
  text_doc :: string
  metadata :: "(string \<times> string) list"

text \<open>An optional list argument, read the way the truth tests and the loop read it.\<close>

fun opt_list :: "'a list option \<Rightarrow> 'a list" where
  "opt_list None = []"
| "opt_list (Some xs) = xs"

text \<open>
  \<^verbatim>\<open>list(set(xs))\<close>: the elements of \<open>xs\<close> once each. Python leaves the
  iteration order of a set open, so the order is a parameter of the model: a
  rearrangement applied to the list without its duplicates.
\<close>

definition list_set :: "(string list \<Rightarrow> string list) \<Rightarrow> string list \<Rightarrow> string list" where
  "list_set set_order xs = set_order (remdups xs)"

text \<open>The loop of \<^verbatim>\<open>load_data\<close> over the channel ids (lines 226 to 238).\<close>

fun read_channels ::
  "nat \<Rightarrow> web_client \<Rightarrow> slack_reader \<Rightarrow> string list \<Rightarrow> bool \<Rightarrow> event list \<Rightarrow>
   (py_error + document list \<times> event list) option" where
  "read_channels n client self [] reverse_chronological w = Some (Inr ([], w))"
| "read_channels n client self (channel_id # channel_ids) reverse_chronological w =
    (case read_channel n client self channel_id reverse_chronological w of
       None \<Rightarrow> None
     | Some (Inl e) \<Rightarrow> Some (Inl e)
     | Some (Inr (channel_content, w')) \<Rightarrow>
         (case read_channels n client self channel_ids reverse_chronological w' of
            None \<Rightarrow> None
          | Some (Inl e) \<Rightarrow> Some (Inl e)
          | Some (Inr (results, w'')) \<Rightarrow>
              Some (Inr (\<lparr>id_doc = channel_id, text_doc = channel_content,
                           metadata = [(''channel'', channel_id)]\<rparr> # results, w''))))"

text \<open>
  \<^verbatim>\<open>load_data\<close>. An absent and an empty list are both falsy. The ids are made
  unique only on the branch that combines explicit ids with resolved ones
  (line 223).
\<close>

definition load_data ::
  "nat \<Rightarrow> web_client \<Rightarrow> regex_module \<Rightarrow> (string list \<Rightarrow> string list) \<Rightarrow> slack_reader \<Rightarrow>
   string list option \<Rightarrow> string list option \<Rightarrow> bool \<Rightarrow> event list \<Rightarrow>
   (py_error + document list \<times> event list) option" where
  "load_data n client re set_order self channel_ids channel_patterns reverse_chronological w =
    (if opt_list channel_ids = [] \<and> opt_list channel_patterns = []
     then Some (Inl (ValueError ''Must specify either `channel_ids` or `channel_patterns`.''))
     else
       case (if opt_list channel_patterns \<noteq> []
             then (case get_channel_ids client re (opt_list channel_patterns) w of
                     (pattern_channel_ids, w1) \<Rightarrow>
                       (let w2 = (if pattern_channel_ids = [] then w1 @ [LogWarning] else w1)
                        in if opt_list channel_ids \<noteq> []
                           then (list_set set_order (opt_list channel_ids @ pattern_channel_ids), w2)
                           else (pattern_channel_ids, w2)))
             else (opt_list channel_ids, w)) of
         (channel_ids', w') \<Rightarrow>
           read_channels n client self channel_ids' reverse_chronological w')"

section \<open>Observations on a run\<close>

text \<open>The history requests among the events of a run, in the order issued.\<close>

fun history_requests :: "event list \<Rightarrow> request list" where
  "history_requests [] = []"
| "history_requests (ConversationsHistory r # w) = r # history_requests w"
| "history_requests (e # w) = history_requests w"

definition no_history :: "event \<Rightarrow> bool" where
  "no_history e = (history_requests [e] = [])"

text \<open>
  The messages the platform delivered to a run, in the order delivered: for
  every history request among the events \<open>ext\<close> that follow the events
  \<open>w\<close>, the messages of the page the platform answered with at that moment
  (none when it answered with an error).
\<close>

fun delivered :: "web_client \<Rightarrow> event list \<Rightarrow> event list \<Rightarrow> message list" where
  "delivered client w [] = []"
| "delivered client w (ConversationsHistory r # ext) =
     (case conversations_history client w r of
        Inr result \<Rightarrow> messages result
      | Inl e \<Rightarrow> []) @ delivered client (w @ [ConversationsHistory r]) ext"
| "delivered client w (e # ext) = delivered client (w @ [e]) ext"

text \<open>
  The window bounds a request event carries, as the two request builders set
  them: a history request has the upper bound and, when set, the lower bound;
  a replies request has both bounds when the lower bound is set and none when
  it is not. Other events carry no bounds.
\<close>

fun window_bounds_sent :: "slack_reader \<Rightarrow> event \<Rightarrow> bool" where
  "window_bounds_sent self (ConversationsHistory r) =
     (latest r = Some (latest_date_timestamp self) \<and> oldest r = earliest_date_timestamp self)"
| "window_bounds_sent self (ConversationsReplies r) =
     (if earliest_date_timestamp self = None
      then latest r = None \<and> oldest r = None
      else latest r = Some (latest_date_timestamp self) \<and> oldest r = earliest_date_timestamp self)"
| "window_bounds_sent self e = True"

section \<open>Concrete readers and platforms\<close>

text \<open>A reader without a lower bound, and one with a full window.\<close>

definition open_reader :: slack_reader where
  "open_reader =
     \<lparr>slack_token = ''xoxb-1'', earliest_date_timestamp = None,
      latest_date_timestamp = 1700000000\<rparr>"

definition windowed_reader :: slack_reader where
  "windowed_reader =
     \<lparr>slack_token = ''xoxb-1'', earliest_date_timestamp = Some 1600000000,
      latest_date_timestamp = 1700000000\<rparr>"

definition empty_page :: page where
  "empty_page = \<lparr>messages = [], has_more = False, response_metadata = None\<rparr>"

text \<open>A platform on which every channel is empty and no channel is listed.\<close>

definition quiet_client :: web_client where
  "quiet_client =
     \<lparr>conversations_replies = (\<lambda>w r. Inr empty_page),
      conversations_history = (\<lambda>w r. Inr empty_page),
      conversations_list = (\<lambda>w. Inr [])\<rparr>"

text \<open>
  A platform that answers every history request with the error
  \<^verbatim>\<open>channel_not_found\<close>, which is not a rate-limit signal.
\<close>

definition channel_not_found_client :: web_client where
  "channel_not_found_client =
     quiet_client\<lparr>conversations_history :=
       (\<lambda>w r. Inl \<lparr>error = ''channel_not_found'', retry_after = None\<rparr>)\<rparr>"

text \<open>
  A platform that rate-limits the very first request, asking for 30 seconds,
  and serves every later one: a thread of one message, an empty channel.
\<close>

definition rate_limit_once_client :: web_client where
  "rate_limit_once_client =
     \<lparr>conversations_replies = (\<lambda>w r.
        if w = [] then Inl \<lparr>error = ''ratelimited'', retry_after = Some 30\<rparr>
        else Inr \<lparr>messages = [\<lparr>ts = ''1'', text_msg = ''hello''\<rparr>], has_more = False,
                  response_metadata = None\<rparr>),
      conversations_history = (\<lambda>w r.
        if w = [] then Inl \<lparr>error = ''ratelimited'', retry_after = Some 30\<rparr>
        else Inr empty_page),
      conversations_list = (\<lambda>w. Inr [])\<rparr>"

text \<open>
  A channel of three messages delivered newest first on one page; the thread
  of the message with key \<open>k\<close> is the single text \<open>m\<close> followed by \<open>k\<close>,
  which is not the text the history page shows for the message.
\<close>

definition three_message_client :: web_client where
  "three_message_client =
     \<lparr>conversations_replies = (\<lambda>w r.
        Inr \<lparr>messages = [\<lparr>ts = opt_list (thread_ts r), text_msg = ''m'' @ opt_list (thread_ts r)\<rparr>],
             has_more = False, response_metadata = None\<rparr>),
      conversations_history = (\<lambda>w r.
        Inr \<lparr>messages = [\<lparr>ts = ''3'', text_msg = ''top3''\<rparr>, \<lparr>ts = ''2'', text_msg = ''top2''\<rparr>,
                         \<lparr>ts = ''1'', text_msg = ''top1''\<rparr>],
             has_more = False, response_metadata = None\<rparr>),
      conversations_list = (\<lambda>w. Inr [])\<rparr>"

text \<open>
  A channel history of two pages without messages. The platform answers by
  cursor: the first page to a request without cursor, the second page to the
  cursor the first page names, an error to any other cursor.
\<close>

definition two_pages :: "page list" where
  "two_pages =
     [\<lparr>messages = [], has_more = True, response_metadata = Some ''c1''\<rparr>,
      \<lparr>messages = [], has_more = False, response_metadata = None\<rparr>]"

definition two_page_client :: web_client where
  "two_page_client =
     quiet_client\<lparr>conversations_history :=
       (\<lambda>w r. case cursor r of
                 None \<Rightarrow> Inr (two_pages ! 0)
               | Some c \<Rightarrow>
                   if c = ''c1'' then Inr (two_pages ! 1)
                   else Inl \<lparr>error = ''invalid_cursor'', retry_after = None\<rparr>)\<rparr>"


text \<open>A platform whose channel listing fails.\<close>

definition list_fails_client :: web_client where
  "list_fails_client =
     quiet_client\<lparr>conversations_list :=
       (\<lambda>w. Inl \<lparr>error = ''missing_scope'', retry_after = None\<rparr>)\<rparr>"

text \<open>
  The regex module on patterns made of ordinary characters only, where
  \<^verbatim>\<open>re.match\<close> succeeds exactly when the subject starts with the pattern;
  the pattern \<^verbatim>\<open>[\<close> is the one that does not compile.
\<close>

definition literal_re :: regex_module where
  "literal_re =
     \<lparr>re_compile = (\<lambda>p. p \<noteq> ''[''),
      re_match = (\<lambda>p s. take (length p) s = p)\<rparr>"

text \<open>A set that iterates in the order of first insertion.\<close>

definition insertion_order :: "string list \<Rightarrow> string list" where
  "insertion_order xs = xs"

section \<open>Events of a run\<close>

text \<open>
  A run that returns has only added events to those before it, and every
  event it added is one the loops can emit. The lemmas are stated for an
  arbitrary property \<open>Q\<close> of events that holds of everything a loop emits.
\<close>

lemma history_requests_append: "history_requests (u @ v) = history_requests u @ history_requests v"
  by (induction u rule: history_requests.induct) simp_all

lemma read_message_loop_events:
  assumes "\<And>c. Q (ConversationsReplies (replies_request self ch mts c))" "Q LogError" "\<And>d. Q (Sleep d)"
  shows "read_message_loop n client self ch mts acc cur w = Some (Inr (texts, w')) \<Longrightarrow>
         \<exists>ext. w' = w @ ext \<and> list_all Q ext"
proof (induction n arbitrary: acc cur w)
  case 0
  then show ?case by simp
next
  case (Suc n)
  let ?r = "replies_request self ch mts cur"
  show ?case
  proof (cases "conversations_replies client w ?r")
    case (Inr result)
    show ?thesis
    proof (cases "has_more result")
      case False
      with Suc.prems Inr have "w' = w @ [ConversationsReplies ?r]" by simp
      then show ?thesis using assms by simp
    next
      case True
      with Suc.prems Inr obtain c where c: "response_metadata result = Some c"
        and run: "read_message_loop n client self ch mts (acc @ map text_msg (messages result)) (Some c)
              (w @ [ConversationsReplies ?r]) = Some (Inr (texts, w'))"
        by (auto split: option.splits)
      from Suc.IH[OF run] obtain ext where "w' = (w @ [ConversationsReplies ?r]) @ ext" "list_all Q ext"
        by blast
      then show ?thesis using assms by simp
    qed
  next
    case (Inl e)
    show ?thesis
    proof (cases "error e = ''ratelimited''")
      case False
      with Suc.prems Inl have "w' = w @ [ConversationsReplies ?r, LogError]" by simp
      then show ?thesis using assms by simp
    next
      case True
      with Suc.prems Inl obtain d where d: "retry_after e = Some d"
        and run: "read_message_loop n client self ch mts acc cur
              ((w @ [ConversationsReplies ?r]) @ [LogError, Sleep d]) = Some (Inr (texts, w'))"
        by (auto split: option.splits)
      from Suc.IH[OF run] obtain ext where "w' = ((w @ [ConversationsReplies ?r]) @ [LogError, Sleep d]) @ ext" "list_all Q ext"
        by blast
      then show ?thesis using assms by simp
    qed
  qed
qed

lemma read_message_events:
  assumes "\<And>c. Q (ConversationsReplies (replies_request self ch mts c))" "Q LogError" "\<And>d. Q (Sleep d)"
    and "read_message n client self ch mts w = Some (Inr (t, w'))"
  shows "\<exists>ext. w' = w @ ext \<and> list_all Q ext"
proof -
  from assms(4) obtain texts where "read_message_loop n client self ch mts [] None w = Some (Inr (texts, w'))"
    by (auto simp: read_message_def split: option.splits sum.splits)
  from read_message_loop_events[of Q, OF assms(1-3) this] show ?thesis .
qed

lemma read_messages_events:
  assumes "\<And>mts c. Q (ConversationsReplies (replies_request self ch mts c))" "Q LogError" "\<And>d. Q (Sleep d)"
  shows "read_messages n client self ch ms w = Some (Inr (texts, w')) \<Longrightarrow>
         \<exists>ext. w' = w @ ext \<and> list_all Q ext"
proof (induction ms arbitrary: w texts)
  case Nil
  then show ?case by simp
next
  case (Cons m ms)
  from Cons.prems obtain t w1 rest where
    a: "read_message n client self ch (ts m) w = Some (Inr (t, w1))" and
    b: "read_messages n client self ch ms w1 = Some (Inr (rest, w'))"
    by (auto split: option.splits sum.splits)
  from read_message_events[of Q, OF assms a] obtain e1 where e1: "w1 = w @ e1" "list_all Q e1" by blast
  from Cons.IH[OF b] obtain e2 where e2: "w' = w1 @ e2" "list_all Q e2" by blast
  from e1 e2 show ?case by simp
qed

lemma read_channel_loop_events:
  assumes "\<And>c. Q (ConversationsHistory (history_request self ch c))"
    "\<And>mts c. Q (ConversationsReplies (replies_request self ch mts c))"
    "Q LogError" "Q LogInfo" "\<And>d. Q (Sleep d)"
  shows "read_channel_loop n client self ch acc cur w = Some (Inr (texts, w')) \<Longrightarrow>
         \<exists>ext. w' = w @ ext \<and> list_all Q ext"
proof (induction n arbitrary: acc cur w)
  case 0
  then show ?case by simp
next
  case (Suc n)
  let ?r = "history_request self ch cur"
  let ?w1 = "w @ [ConversationsHistory ?r]"
  show ?case
  proof (cases "conversations_history client w ?r")
    case (Inr result)
    with Suc.prems obtain ts_texts w2 where
      threads: "read_messages n client self ch (messages result) (?w1 @ [LogInfo]) = Some (Inr (ts_texts, w2))"
      by (auto split: option.splits sum.splits)
    from read_messages_events[of Q, OF assms(2,3,5) threads] obtain e1
      where e1: "w2 = (?w1 @ [LogInfo]) @ e1" "list_all Q e1" by blast
    show ?thesis
    proof (cases "has_more result")
      case False
      with Suc.prems Inr threads have "w' = w2" by simp
      then show ?thesis using e1 assms by simp
    next
      case True
      with Suc.prems Inr threads obtain c where
        run: "read_channel_loop n client self ch (acc @ ts_texts) (Some c) w2 = Some (Inr (texts, w'))"
        by (auto split: option.splits)
      from Suc.IH[OF run] obtain e2 where "w' = w2 @ e2" "list_all Q e2" by blast
      then show ?thesis using e1 assms by simp
    qed
  next
    case (Inl e)
    show ?thesis
    proof (cases "error e = ''ratelimited''")
      case False
      with Suc.prems Inl have
        run: "read_channel_loop n client self ch acc cur (?w1 @ [LogError]) = Some (Inr (texts, w'))"
        by simp
      from Suc.IH[OF run] obtain e2 where "w' = (?w1 @ [LogError]) @ e2" "list_all Q e2" by blast
      then show ?thesis using assms by simp
    next
      case True
      with Suc.prems Inl obtain d where
        run: "read_channel_loop n client self ch acc cur (?w1 @ [LogError, Sleep d]) = Some (Inr (texts, w'))"
        by (auto split: option.splits)
      from Suc.IH[OF run] obtain e2 where "w' = (?w1 @ [LogError, Sleep d]) @ e2" "list_all Q e2" by blast
      then show ?thesis using assms by simp
    qed
  qed
qed

lemma read_channel_events:
  assumes "\<And>c. Q (ConversationsHistory (history_request self ch c))"
    "\<And>mts c. Q (ConversationsReplies (replies_request self ch mts c))"
    "Q LogError" "Q LogInfo" "\<And>d. Q (Sleep d)"
    and "read_channel n client self ch rc w = Some (Inr (t, w'))"
  shows "\<exists>ext. w' = w @ ext \<and> list_all Q ext"
proof -
  from assms(6) obtain texts where
    "read_channel_loop n client self ch [] None w = Some (Inr (texts, w'))"
    by (auto simp: read_channel_def split: option.splits sum.splits)
  from read_channel_loop_events[of Q, OF assms(1-5) this] show ?thesis .
qed

lemma read_message_loop_extends:
  "read_message_loop n client self ch mts acc cur w = Some (Inr (texts, w')) \<Longrightarrow> \<exists>ext. w' = w @ ext"
  using read_message_loop_events[of "\<lambda>e. True" self ch mts n client acc cur w texts w'] by auto

lemma read_messages_extends:
  "read_messages n client self ch ms w = Some (Inr (texts, w')) \<Longrightarrow> \<exists>ext. w' = w @ ext"
  using read_messages_events[of "\<lambda>e. True" self ch n client ms w texts w'] by auto

lemma read_channel_loop_extends:
  "read_channel_loop n client self ch acc cur w = Some (Inr (texts, w')) \<Longrightarrow> \<exists>ext. w' = w @ ext"
  using read_channel_loop_events[of "\<lambda>e. True" self ch n client acc cur w texts w'] by auto

text \<open>
  An iteration starts with its request: the trace of a run that returns
  continues with the request built from the cursor the loop was entered with.
\<close>

lemma read_message_loop_first_request:
  assumes "read_message_loop n client self ch mts acc cur w = Some (Inr (texts, w'))"
  shows "\<exists>ext. w' = w @ [ConversationsReplies (replies_request self ch mts cur)] @ ext"
proof (cases n)
  case 0
  with assms show ?thesis by simp
next
  case (Suc m)
  let ?r = "replies_request self ch mts cur"
  show ?thesis
  proof (cases "conversations_replies client w ?r")
    case (Inr result)
    with assms Suc show ?thesis
      by (auto simp: Let_def split: if_splits option.splits dest!: read_message_loop_extends)
  next
    case (Inl e)
    with assms Suc show ?thesis
      by (auto simp: Let_def split: if_splits option.splits dest!: read_message_loop_extends)
  qed
qed

lemma read_channel_loop_first_request:
  assumes "read_channel_loop n client self ch acc cur w = Some (Inr (texts, w'))"
  shows "\<exists>ext. w' = w @ [ConversationsHistory (history_request self ch cur)] @ ext"
proof (cases n)
  case 0
  with assms show ?thesis by simp
next
  case (Suc m)
  let ?r = "history_request self ch cur"
  show ?thesis
  proof (cases "conversations_history client w ?r")
    case (Inr result)
    with assms Suc show ?thesis
      by (auto simp: Let_def split: if_splits option.splits sum.splits
            dest!: read_channel_loop_extends read_messages_extends)
  next
    case (Inl e)
    with assms Suc show ?thesis
      by (auto simp: Let_def split: if_splits option.splits dest!: read_channel_loop_extends)
  qed
qed

text \<open>
  Reading threads issues no history request.
\<close>

lemma no_history_all: "list_all no_history ext \<Longrightarrow> history_requests ext = []"
  by (induction ext rule: history_requests.induct) (simp_all add: no_history_def)

lemma read_messages_no_history:
  assumes "read_messages n client self ch ms w = Some (Inr (texts, w'))"
  shows "\<exists>ext. w' = w @ ext \<and> history_requests ext = []"
proof -
  have "\<exists>ext. w' = w @ ext \<and> list_all no_history ext"
    by (rule read_messages_events[OF _ _ _ assms]) (simp_all add: no_history_def)
  then show ?thesis using no_history_all by blast
qed

text \<open>
  More fuel does not change a result.
\<close>

lemma read_message_loop_mono:
  "read_message_loop n client self ch mts acc cur w = Some r \<Longrightarrow>
   read_message_loop (n + k) client self ch mts acc cur w = Some r"
  by (induction n arbitrary: acc cur w)
     (auto simp: Let_def split: sum.splits option.splits if_splits)

lemma read_message_mono:
  "read_message n client self ch mts w = Some (Inr r) \<Longrightarrow>
   read_message (n + k) client self ch mts w = Some (Inr r)"
  by (auto simp: read_message_def split: option.splits sum.splits
        dest: read_message_loop_mono[where k = k])

lemma read_messages_returns:
  assumes threads: "\<And>mts w1. \<exists>t w2. read_message m client self ch mts w1 = Some (Inr (t, w2))"
  shows "\<exists>texts w2. read_messages (m + k) client self ch ms w1 = Some (Inr (texts, w2))"
proof (induction ms arbitrary: w1)
  case Nil
  show ?case by simp
next
  case (Cons a ms)
  from threads obtain t w2 where "read_message m client self ch (ts a) w1 = Some (Inr (t, w2))"
    by blast
  then have "read_message (m + k) client self ch (ts a) w1 = Some (Inr (t, w2))"
    by (rule read_message_mono)
  moreover from Cons.IH obtain texts w3 where
    "read_messages (m + k) client self ch ms w2 = Some (Inr (texts, w3))" by blast
  ultimately show ?case by simp
qed

section \<open>Transport errors other than rate limits\<close>

text \<open>
  In \<^verbatim>\<open>_read_message\<close> such an error ends the loop at once with what has
  been accumulated. In \<^verbatim>\<open>_read_channel\<close> it does not: the iteration ends
  after the log record and the loop runs again from the same state.
\<close>

lemma read_message_loop_other_error:
  assumes "conversations_replies client w (replies_request self ch mts cur) = Inl e"
    and "error e \<noteq> ''ratelimited''"
  shows "read_message_loop (Suc n) client self ch mts acc cur w =
         Some (Inr (acc, w @ [ConversationsReplies (replies_request self ch mts cur), LogError]))"
  using assms by simp

lemma read_channel_loop_other_error:
  assumes "conversations_history client w (history_request self ch cur) = Inl e"
    and "error e \<noteq> ''ratelimited''"
  shows "read_channel_loop (Suc n) client self ch acc cur w =
         read_channel_loop n client self ch acc cur
           (w @ [ConversationsHistory (history_request self ch cur), LogError])"
  using assms by simp

lemma channel_not_found_loop:
  "read_channel_loop n channel_not_found_client self ch acc cur w = None"
  by (induction n arbitrary: w) (simp_all add: channel_not_found_client_def quiet_client_def)

text \<open>
  C1. The claim asks that both loops stop at the first transport error that
  is not a rate limit and return the partial text. On a platform that answers
  every history request with \<^verbatim>\<open>channel_not_found\<close>, \<^verbatim>\<open>_read_channel\<close> does
  not return, however many iterations it is given: the handler at line 189
  lacks the \<^verbatim>\<open>break\<close> that \<^verbatim>\<open>_read_message\<close> has at line 138.
\<close>

theorem read_channel_other_error_never_returns:
  "read_channel n channel_not_found_client self channel_id reverse_chronological w = None"
  by (simp add: read_channel_def channel_not_found_loop)

section \<open>Rate limits\<close>

text \<open>
  C2. When a page request is answered by a rate-limit error that carries a
  retry-after duration \<open>d\<close>, the iteration records the request, logs, sleeps
  exactly \<open>d\<close> seconds and hands over to the next iteration with the
  accumulated texts and the cursor unchanged; the next event of a run that
  returns is the same request again. This holds of the replies loop and of
  the history loop.
\<close>

theorem rate_limited_request_is_retried:
  assumes "error e = ''ratelimited''" and "retry_after e = Some d"
  shows "(conversations_replies client w (replies_request self ch mts cur) = Inl e \<longrightarrow>
            read_message_loop (Suc n) client self ch mts acc cur w =
            read_message_loop n client self ch mts acc cur
              (w @ [ConversationsReplies (replies_request self ch mts cur), LogError, Sleep d]) \<and>
            (\<forall>texts w'. read_message_loop (Suc n) client self ch mts acc cur w = Some (Inr (texts, w')) \<longrightarrow>
               (\<exists>ext. w' = w @ [ConversationsReplies (replies_request self ch mts cur), LogError, Sleep d,
                                ConversationsReplies (replies_request self ch mts cur)] @ ext))) \<and>
         (conversations_history client w (history_request self ch cur) = Inl e \<longrightarrow>
            read_channel_loop (Suc n) client self ch acc cur w =
            read_channel_loop n client self ch acc cur
              (w @ [ConversationsHistory (history_request self ch cur), LogError, Sleep d]) \<and>
            (\<forall>texts w'. read_channel_loop (Suc n) client self ch acc cur w = Some (Inr (texts, w')) \<longrightarrow>
               (\<exists>ext. w' = w @ [ConversationsHistory (history_request self ch cur), LogError, Sleep d,
                                ConversationsHistory (history_request self ch cur)] @ ext)))"
proof (intro conjI impI allI)
  assume r: "conversations_replies client w (replies_request self ch mts cur) = Inl e"
  show step: "read_message_loop (Suc n) client self ch mts acc cur w =
        read_message_loop n client self ch mts acc cur
          (w @ [ConversationsReplies (replies_request self ch mts cur), LogError, Sleep d])"
    using r assms by simp
  fix texts w'
  assume "read_message_loop (Suc n) client self ch mts acc cur w = Some (Inr (texts, w'))"
  with step have "read_message_loop n client self ch mts acc cur
          (w @ [ConversationsReplies (replies_request self ch mts cur), LogError, Sleep d]) =
        Some (Inr (texts, w'))" by metis
  from read_message_loop_first_request[OF this]
  show "\<exists>ext. w' = w @ [ConversationsReplies (replies_request self ch mts cur), LogError, Sleep d,
                                ConversationsReplies (replies_request self ch mts cur)] @ ext"
    by auto
next
  assume r: "conversations_history client w (history_request self ch cur) = Inl e"
  show step: "read_channel_loop (Suc n) client self ch acc cur w =
            read_channel_loop n client self ch acc cur
              (w @ [ConversationsHistory (history_request self ch cur), LogError, Sleep d])"
    using r assms by simp
  fix texts w'
  assume "read_channel_loop (Suc n) client self ch acc cur w = Some (Inr (texts, w'))"
  with step have "read_channel_loop n client self ch acc cur
          (w @ [ConversationsHistory (history_request self ch cur), LogError, Sleep d]) =
        Some (Inr (texts, w'))" by metis
  from read_channel_loop_first_request[OF this]
  show "\<exists>ext. w' = w @ [ConversationsHistory (history_request self ch cur), LogError, Sleep d,
                                ConversationsHistory (history_request self ch cur)] @ ext"
    by auto
qed

theorem rate_limited_request_is_retried_witness:
  "read_message_loop (Suc (Suc 0)) rate_limit_once_client open_reader ''C1'' ''1'' [] None [] =
     Some (Inr ([''hello''],
       [ConversationsReplies (replies_request open_reader ''C1'' ''1'' None), LogError, Sleep 30,
        ConversationsReplies (replies_request open_reader ''C1'' ''1'' None)])) \<and>
   read_channel_loop (Suc (Suc 0)) rate_limit_once_client open_reader ''C1'' [] None [] =
     Some (Inr ([],
       [ConversationsHistory (history_request open_reader ''C1'' None), LogError, Sleep 30,
        ConversationsHistory (history_request open_reader ''C1'' None), LogInfo]))"
  using rate_limited_request_is_retried
          [of "\<lparr>error = ''ratelimited'', retry_after = Some 30\<rparr>" 30 rate_limit_once_client "[]"
              open_reader "''C1''" "''1''" None "Suc 0" "[]"]
  by (simp add: rate_limit_once_client_def empty_page_def)

section \<open>Order of the channel text\<close>

text \<open>
  The messages delivered to a run split along the events, and events that
  are not history requests deliver none.
\<close>

lemma delivered_append:
  "delivered client w (u @ v) = delivered client w u @ delivered client (w @ u) v"
  by (induction client w u rule: delivered.induct) simp_all

lemma delivered_no_history:
  "list_all no_history ext \<Longrightarrow> delivered client w ext = []"
  by (induction client w ext rule: delivered.induct) (simp_all add: no_history_def)

text \<open>
  A thread read found among the events after \<open>w @ pre\<close> is found among the
  events after \<open>w\<close>.
\<close>

lemma read_message_extends:
  assumes "read_message n client self ch mts w = Some (Inr (t, w'))"
  shows "\<exists>ext. w' = w @ ext"
  using read_message_events[of "\<lambda>e. True" self ch mts n client w t w'] assms by auto

lemma thread_read_lift:
  assumes "\<exists>k e1 e2 e3. ext = e1 @ e2 @ e3 \<and>
             read_message k client self ch mts ((w @ pre) @ e1) = Some (Inr (t, (w @ pre) @ e1 @ e2))"
  shows "\<exists>k e1 e2 e3. pre @ ext @ post = e1 @ e2 @ e3 \<and>
             read_message k client self ch mts (w @ e1) = Some (Inr (t, w @ e1 @ e2))"
proof -
  from assms obtain k e1 e2 e3 where
    "ext = e1 @ e2 @ e3"
    "read_message k client self ch mts ((w @ pre) @ e1) = Some (Inr (t, (w @ pre) @ e1 @ e2))"
    by blast
  then have "pre @ ext @ post = (pre @ e1) @ e2 @ (e3 @ post) \<and>
        read_message k client self ch mts (w @ (pre @ e1)) = Some (Inr (t, w @ (pre @ e1) @ e2))"
    by simp
  then show ?thesis by blast
qed

lemma thread_reads_lift:
  assumes "list_all2 (\<lambda>m t. \<exists>k e1 e2 e3. ext = e1 @ e2 @ e3 \<and>
             read_message k client self ch (ts m) ((w @ pre) @ e1) =
             Some (Inr (t, (w @ pre) @ e1 @ e2))) ms texts"
  shows "list_all2 (\<lambda>m t. \<exists>k e1 e2 e3. pre @ ext @ post = e1 @ e2 @ e3 \<and>
             read_message k client self ch (ts m) (w @ e1) = Some (Inr (t, w @ e1 @ e2))) ms texts"
  using assms
proof (rule list_all2_mono)
  fix x y
  assume "\<exists>k e1 e2 e3. ext = e1 @ e2 @ e3 \<and>
             read_message k client self ch (ts x) ((w @ pre) @ e1) =
             Some (Inr (y, (w @ pre) @ e1 @ e2))"
  then show "\<exists>k e1 e2 e3. pre @ ext @ post = e1 @ e2 @ e3 \<and>
             read_message k client self ch (ts x) (w @ e1) = Some (Inr (y, w @ e1 @ e2))"
    by (rule thread_read_lift)
qed

lemma read_messages_delivers_nothing:
  assumes "read_messages n client self ch ms w = Some (Inr (texts, w @ ext))"
  shows "delivered client w ext = []"
proof -
  have "\<exists>e. w @ ext = w @ e \<and> list_all no_history e"
    by (rule read_messages_events[OF _ _ _ assms]) (simp_all add: no_history_def)
  then have "list_all no_history ext" by simp
  then show ?thesis by (rule delivered_no_history)
qed

text \<open>
  The texts collected for the messages of a page are, message by message and
  in the order of the page, the texts that calls of \<^verbatim>\<open>_read_message\<close> for the
  key of that message returned during the run; the loop appends them page
  after page.
\<close>

lemma read_messages_thread_texts:
  "read_messages n client self ch ms w = Some (Inr (texts, w')) \<Longrightarrow>
   \<exists>ext. w' = w @ ext \<and>
     list_all2 (\<lambda>m t. \<exists>k e1 e2 e3. ext = e1 @ e2 @ e3 \<and>
                 read_message k client self ch (ts m) (w @ e1) = Some (Inr (t, w @ e1 @ e2)))
       ms texts"
proof (induction ms arbitrary: w texts)
  case Nil
  then show ?case by simp
next
  case (Cons m ms)
  from Cons.prems obtain t w1 rest where
    a: "read_message n client self ch (ts m) w = Some (Inr (t, w1))" and
    b: "read_messages n client self ch ms w1 = Some (Inr (rest, w'))" and
    c: "texts = t # rest"
    by (auto split: option.splits sum.splits)
  from read_message_extends[OF a] obtain ea where ea: "w1 = w @ ea" by blast
  from Cons.IH[OF b] obtain eb where eb: "w' = w1 @ eb" and
    tail: "list_all2 (\<lambda>m t. \<exists>k e1 e2 e3. eb = e1 @ e2 @ e3 \<and>
                 read_message k client self ch (ts m) (w1 @ e1) = Some (Inr (t, w1 @ e1 @ e2)))
       ms rest"
    by blast
  have head: "\<exists>k e1 e2 e3. ea @ eb = e1 @ e2 @ e3 \<and>
                 read_message k client self ch (ts m) (w @ e1) = Some (Inr (t, w @ e1 @ e2))"
    using a ea by (intro exI[of _ n] exI[of _ "[]"] exI[of _ ea] exI[of _ eb]) simp
  have tail': "list_all2 (\<lambda>m t. \<exists>k e1 e2 e3. ea @ eb = e1 @ e2 @ e3 \<and>
                 read_message k client self ch (ts m) (w @ e1) = Some (Inr (t, w @ e1 @ e2)))
       ms rest"
    using tail
  proof (rule list_all2_mono)
    fix x y
    assume "\<exists>k e1 e2 e3. eb = e1 @ e2 @ e3 \<and>
                 read_message k client self ch (ts x) (w1 @ e1) = Some (Inr (y, w1 @ e1 @ e2))"
    then have "\<exists>k e1 e2 e3. eb = e1 @ e2 @ e3 \<and>
                 read_message k client self ch (ts x) ((w @ ea) @ e1) = Some (Inr (y, (w @ ea) @ e1 @ e2))"
      using ea by simp
    from thread_read_lift[OF this, of "[]"]
    show "\<exists>k e1 e2 e3. ea @ eb = e1 @ e2 @ e3 \<and>
                 read_message k client self ch (ts x) (w @ e1) = Some (Inr (y, w @ e1 @ e2))"
      by simp
  qed
  from head tail' c ea eb show ?case
    by (intro exI[of _ "ea @ eb"]) simp
qed

lemma read_channel_loop_thread_texts:
  "read_channel_loop n client self ch acc cur w = Some (Inr (texts, w')) \<Longrightarrow>
   \<exists>ext new. w' = w @ ext \<and> texts = acc @ new \<and>
     list_all2 (\<lambda>m t. \<exists>k e1 e2 e3. ext = e1 @ e2 @ e3 \<and>
                 read_message k client self ch (ts m) (w @ e1) = Some (Inr (t, w @ e1 @ e2)))
       (delivered client w ext) new"
proof (induction n arbitrary: acc cur w)
  case 0
  then show ?case by simp
next
  case (Suc n)
  let ?R = "\<lambda>w ext m t. \<exists>k e1 e2 e3. ext = e1 @ e2 @ e3 \<and>
                 read_message k client self ch (ts m) (w @ e1) = Some (Inr (t, w @ e1 @ e2))"
  let ?r = "history_request self ch cur"
  show ?case
  proof (cases "conversations_history client w ?r")
    case (Inr result)
    let ?pre = "[ConversationsHistory ?r, LogInfo]"
    from Suc.prems Inr obtain tt w2 where
      threads: "read_messages n client self ch (messages result) (w @ ?pre) = Some (Inr (tt, w2))"
      by (auto split: option.splits sum.splits)
    from read_messages_thread_texts[OF threads] obtain e1 where
      e1: "w2 = (w @ ?pre) @ e1" and
      tt: "list_all2 (?R (w @ ?pre) e1) (messages result) tt"
      by blast
    from threads e1 have "delivered client (w @ ?pre) e1 = []"
      by (intro read_messages_delivers_nothing[of n client self ch "messages result" _ tt]) simp
    then have d1: "delivered client w (?pre @ e1) = messages result"
      using Inr by simp
    show ?thesis
    proof (cases "has_more result")
      case False
      with Suc.prems Inr threads have "w' = w2" "texts = acc @ tt" by simp_all
      moreover from thread_reads_lift[OF tt, of "[]"]
      have "list_all2 (?R w (?pre @ e1)) (messages result) tt" by simp
      ultimately show ?thesis using e1 d1
        by (intro exI[of _ "?pre @ e1"] exI[of _ tt]) simp
    next
      case True
      with Suc.prems Inr threads obtain c where
        run: "read_channel_loop n client self ch (acc @ tt) (Some c) w2 = Some (Inr (texts, w'))"
        by (auto split: option.splits)
      from Suc.IH[OF run] obtain e2 new2 where
        e2: "w' = w2 @ e2" "texts = (acc @ tt) @ new2" and
        rest: "list_all2 (?R w2 e2) (delivered client w2 e2) new2"
        by blast
      let ?ext = "(?pre @ e1) @ e2"
      have w2: "w2 = w @ (?pre @ e1)" using e1 by simp
      have dd: "delivered client w ?ext = messages result @ delivered client w2 e2"
        unfolding delivered_append[of client w "?pre @ e1" e2] d1 w2 ..
      from thread_reads_lift[OF tt, of e2]
      have a: "list_all2 (?R w ?ext) (messages result) tt" by simp
      from rest have "list_all2 (?R (w @ (?pre @ e1)) e2) (delivered client w2 e2) new2"
        unfolding w2 .
      from thread_reads_lift[OF this, of "[]"]
      have b: "list_all2 (?R w ?ext) (delivered client w2 e2) new2" by simp
      from a b have "list_all2 (?R w ?ext) (messages result @ delivered client w2 e2) (tt @ new2)"
        by (rule list_all2_appendI)
      with dd e2 w2 show ?thesis
        by (intro exI[of _ ?ext] exI[of _ "tt @ new2"]) simp
    qed
  next
    case (Inl e)
    have retry: "\<exists>ext new. w' = w @ ext \<and> texts = acc @ new \<and>
        list_all2 (?R w ext) (delivered client w ext) new"
      if run: "read_channel_loop n client self ch acc cur (w @ pre) = Some (Inr (texts, w'))"
        and pre: "delivered client w pre = []" for pre
    proof -
      from Suc.IH[OF run] obtain e2 new2 where
        e2: "w' = (w @ pre) @ e2" "texts = acc @ new2" and
        rest: "list_all2 (?R (w @ pre) e2) (delivered client (w @ pre) e2) new2"
        by blast
      from thread_reads_lift[OF rest, of "[]"]
      have "list_all2 (?R w (pre @ e2)) (delivered client (w @ pre) e2) new2" by simp
      moreover have "delivered client w (pre @ e2) = delivered client (w @ pre) e2"
        using pre by (simp add: delivered_append)
      ultimately show ?thesis using e2
        by (intro exI[of _ "pre @ e2"] exI[of _ new2]) simp
    qed
    show ?thesis
    proof (cases "error e = ''ratelimited''")
      case False
      with Suc.prems Inl have
        "read_channel_loop n client self ch acc cur (w @ [ConversationsHistory ?r, LogError]) =
           Some (Inr (texts, w'))"
        by simp
      moreover have "delivered client w [ConversationsHistory ?r, LogError] = []"
        using Inl by simp
      ultimately show ?thesis by (rule retry)
    next
      case True
      with Suc.prems Inl obtain d where
        "read_channel_loop n client self ch acc cur (w @ [ConversationsHistory ?r, LogError, Sleep d]) =
           Some (Inr (texts, w'))"
        by (auto split: option.splits)
      moreover have "delivered client w [ConversationsHistory ?r, LogError, Sleep d] = []"
        using Inl by simp
      ultimately show ?thesis by (rule retry)
    qed
  qed
qed

text \<open>
  C3. The text a channel fetch returns is made of the thread texts of the
  messages the platform delivered to it: there is a list of texts, one per
  delivered message and in delivery order, each the text that a call of
  \<^verbatim>\<open>_read_message\<close> for that message's key returned during the fetch, and
  the channel text is that list joined by two newline characters for
  \<^verbatim>\<open>reverse_chronological=True\<close>, and the reversed list joined the same way
  for \<^verbatim>\<open>False\<close>.
\<close>

theorem read_channel_order:
  assumes "read_channel n client self channel_id reverse_chronological w = Some (Inr (content, w'))"
  shows "\<exists>ext texts.
           w' = w @ ext \<and>
           list_all2
             (\<lambda>m t. \<exists>k e1 e2 e3. ext = e1 @ e2 @ e3 \<and>
                read_message k client self channel_id (ts m) (w @ e1) =
                Some (Inr (t, w @ e1 @ e2)))
             (delivered client w ext) texts \<and>
           content =
             (if reverse_chronological
              then join [CHR 0x0A, CHR 0x0A] texts
              else join [CHR 0x0A, CHR 0x0A] (rev texts))"
proof -
  from assms obtain texts where
    loop: "read_channel_loop n client self channel_id [] None w = Some (Inr (texts, w'))" and
    content: "content = (if reverse_chronological then join blank_line texts
                         else join blank_line (rev texts))"
    by (auto simp: read_channel_def split: option.splits sum.splits)
  from read_channel_loop_thread_texts[OF loop] content show ?thesis
    by (auto simp: blank_line_def)
qed

theorem read_channel_order_witness:
  "read_channel (Suc (Suc 0)) three_message_client open_reader ''C1'' True [] =
     Some (Inr (''m3'' @ [CHR 0x0A, CHR 0x0A] @ ''m2'' @ [CHR 0x0A, CHR 0x0A] @ ''m1'',
       [ConversationsHistory (history_request open_reader ''C1'' None), LogInfo,
        ConversationsReplies (replies_request open_reader ''C1'' ''3'' None),
        ConversationsReplies (replies_request open_reader ''C1'' ''2'' None),
        ConversationsReplies (replies_request open_reader ''C1'' ''1'' None)])) \<and>
   read_channel (Suc (Suc 0)) three_message_client open_reader ''C1'' False [] =
     Some (Inr (''m1'' @ [CHR 0x0A, CHR 0x0A] @ ''m2'' @ [CHR 0x0A, CHR 0x0A] @ ''m3'',
       [ConversationsHistory (history_request open_reader ''C1'' None), LogInfo,
        ConversationsReplies (replies_request open_reader ''C1'' ''3'' None),
        ConversationsReplies (replies_request open_reader ''C1'' ''2'' None),
        ConversationsReplies (replies_request open_reader ''C1'' ''1'' None)])) \<and>
   delivered three_message_client []
       [ConversationsHistory (history_request open_reader ''C1'' None), LogInfo,
        ConversationsReplies (replies_request open_reader ''C1'' ''3'' None),
        ConversationsReplies (replies_request open_reader ''C1'' ''2'' None),
        ConversationsReplies (replies_request open_reader ''C1'' ''1'' None)] =
     [\<lparr>ts = ''3'', text_msg = ''top3''\<rparr>, \<lparr>ts = ''2'', text_msg = ''top2''\<rparr>,
      \<lparr>ts = ''1'', text_msg = ''top1''\<rparr>] \<and>
   map_option (map_sum id fst)
       (read_message (Suc 0) three_message_client open_reader ''C1'' ''3'' []) =
     Some (Inr ''m3'')"
  (is "?fwd = Some (Inr (?t_fwd, ?tr)) \<and> ?bwd = Some (Inr (?t_bwd, ?tr)) \<and> ?d \<and> ?thread")
proof -
  have fwd: "?fwd = Some (Inr (?t_fwd, ?tr))"
    by (simp add: read_channel_def blank_line_def three_message_client_def read_message_def
          Let_def replies_request_def open_reader_def)
  have bwd: "?bwd = Some (Inr (?t_bwd, ?tr))"
    by (simp add: read_channel_def blank_line_def three_message_client_def read_message_def
          Let_def replies_request_def open_reader_def)
  have d: ?d
    by (simp add: three_message_client_def)
  have thread: ?thread
    by (simp add: read_message_def three_message_client_def replies_request_def open_reader_def)
  from read_channel_order[OF fwd] read_channel_order[OF bwd] fwd bwd d thread
  show ?thesis by blast
qed

section \<open>Window bounds on requests\<close>

text \<open>
  C4, as claimed, fails: a reader without an earliest bound still sends its
  latest bound on every history request.
\<close>

theorem history_sends_latest_without_window_counterexample:
  "earliest_date_timestamp open_reader = None \<and>
   read_channel (Suc 0) quiet_client open_reader ''C1'' True [] =
     Some (Inr ([],
       [ConversationsHistory
          \<lparr>channel = ''C1'', thread_ts = None, cursor = None,
           latest = Some 1700000000, oldest = None\<rparr>,
        LogInfo]))"
  by (simp add: read_channel_def quiet_client_def empty_page_def open_reader_def
        history_request_def)

text \<open>
  C4, amended. A history request always carries the latest bound as its
  upper bound, and the earliest bound as its lower bound exactly when one is
  set. A replies request carries both bounds when the earliest bound is set
  and neither when it is absent. Every request of a channel fetch that
  returns, from either loop, has its bounds set this way.
\<close>

theorem window_bounds_on_requests:
  "latest (history_request self channel_id next_cursor) = Some (latest_date_timestamp self) \<and>
   oldest (history_request self channel_id next_cursor) = earliest_date_timestamp self \<and>
   latest (replies_request self channel_id message_ts next_cursor) =
     (if earliest_date_timestamp self = None then None else Some (latest_date_timestamp self)) \<and>
   oldest (replies_request self channel_id message_ts next_cursor) = earliest_date_timestamp self \<and>
   (\<forall>n client reverse_chronological w t w'.
      read_channel n client self channel_id reverse_chronological w = Some (Inr (t, w')) \<longrightarrow>
      (\<exists>ext. w' = w @ ext \<and> list_all (window_bounds_sent self) ext))"
proof -
  have h: "\<And>c. window_bounds_sent self (ConversationsHistory (history_request self channel_id c))"
    by (simp add: history_request_def Let_def)
  have r: "\<And>mts c. window_bounds_sent self (ConversationsReplies (replies_request self channel_id mts c))"
    by (simp add: replies_request_def Let_def)
  have "\<exists>ext. w' = w @ ext \<and> list_all (window_bounds_sent self) ext"
    if "read_channel n client self channel_id rc w = Some (Inr (t, w'))" for n client rc w t w'
    by (rule read_channel_events[OF h r _ _ _ that]) simp_all
  then show ?thesis
    by (auto simp: history_request_def replies_request_def Let_def)
qed

theorem window_bounds_on_requests_witness:
  "read_channel (Suc (Suc 0)) three_message_client windowed_reader ''C1'' True [] =
     Some (Inr (''m3'' @ blank_line @ ''m2'' @ blank_line @ ''m1'',
       [ConversationsHistory
          \<lparr>channel = ''C1'', thread_ts = None, cursor = None,
           latest = Some 1700000000, oldest = Some 1600000000\<rparr>,
        LogInfo,
        ConversationsReplies
          \<lparr>channel = ''C1'', thread_ts = Some ''3'', cursor = None,
           latest = Some 1700000000, oldest = Some 1600000000\<rparr>,
        ConversationsReplies
          \<lparr>channel = ''C1'', thread_ts = Some ''2'', cursor = None,
           latest = Some 1700000000, oldest = Some 1600000000\<rparr>,
        ConversationsReplies
          \<lparr>channel = ''C1'', thread_ts = Some ''1'', cursor = None,
           latest = Some 1700000000, oldest = Some 1600000000\<rparr>])) \<and>
   list_all (window_bounds_sent windowed_reader)
     [ConversationsHistory
          \<lparr>channel = ''C1'', thread_ts = None, cursor = None,
           latest = Some 1700000000, oldest = Some 1600000000\<rparr>,
        LogInfo,
        ConversationsReplies
          \<lparr>channel = ''C1'', thread_ts = Some ''3'', cursor = None,
           latest = Some 1700000000, oldest = Some 1600000000\<rparr>,
        ConversationsReplies
          \<lparr>channel = ''C1'', thread_ts = Some ''2'', cursor = None,
           latest = Some 1700000000, oldest = Some 1600000000\<rparr>,
        ConversationsReplies
          \<lparr>channel = ''C1'', thread_ts = Some ''1'', cursor = None,
           latest = Some 1700000000, oldest = Some 1600000000\<rparr>]"
  (is "?run = Some (Inr (?text, ?tr)) \<and> _")
proof -
  have run: "?run = Some (Inr (?text, ?tr))"
    by (simp add: read_channel_def three_message_client_def read_message_def Let_def
          replies_request_def history_request_def windowed_reader_def blank_line_def)
  have "\<forall>n client reverse_chronological w t w'.
      read_channel n client windowed_reader ''C1'' reverse_chronological w = Some (Inr (t, w')) \<longrightarrow>
      (\<exists>ext. w' = w @ ext \<and> list_all (window_bounds_sent windowed_reader) ext)"
    using window_bounds_on_requests[of windowed_reader "''C1''" None "''1''"] by blast
  with run have "\<exists>ext. ?tr = [] @ ext \<and> list_all (window_bounds_sent windowed_reader) ext"
    by blast
  then have "list_all (window_bounds_sent windowed_reader) ?tr"
    by (metis append_Nil)
  with run show ?thesis by blast
qed

section \<open>Documents of a load call\<close>





section \<open>Construction: results\<close>

text \<open>
  C6, as claimed, fails: the window check reads the arguments
  \<^verbatim>\<open>latest_date\<close> and \<^verbatim>\<open>earliest_date\<close> only. A latest bound supplied as
  \<^verbatim>\<open>latest_date_timestamp\<close>, with no earliest bound of either kind, is
  accepted and a reader is created.
\<close>

theorem init_raw_latest_without_earliest_counterexample:
  "init None 1700000000 \<lparr>ok = True, api_error = []\<rparr> (Some ''xoxb-1'') None None
        None (Some 1650000000) =
     Inr \<lparr>slack_token = ''xoxb-1'', earliest_date_timestamp = None,
          latest_date_timestamp = 1700000000\<rparr> \<and>
   \<not> is_initialization_error
       (init None 1700000000 \<lparr>ok = True, api_error = []\<rparr> (Some ''xoxb-1'') None None
          None (Some 1650000000))"
  by (simp add: init_def float_or_def none_or_def)

text \<open>
  C6, amended. A construction that is given the argument \<^verbatim>\<open>latest_date\<close> and
  not the argument \<^verbatim>\<open>earliest_date\<close> fails, whatever the raw timestamps, the
  other arguments, the environment, the clock and the connectivity check
  are: with the window's \<^verbatim>\<open>ValueError\<close> when a token is resolved, and already
  with the \<^verbatim>\<open>KeyError\<close> of the missing credential when none is. No reader is
  created.
\<close>

theorem init_latest_without_earliest_fails:
  assumes "latest_date = Some l" and "earliest_date = None"
  shows "is_initialization_error
           (init environ now res token earliest_date latest_date earliest_ts latest_ts)
         \<and> init environ now res token earliest_date latest_date earliest_ts latest_ts =
           (if token = None \<and> environ = None
            then Inl (KeyError ''SLACK_BOT_TOKEN'')
            else Inl (ValueError
                   ''Must specify `earliest_date` if `latest_date` is specified.''))"
  using assms by (auto simp: init_def split: option.splits)

theorem init_latest_without_earliest_fails_witness:
  "init None 1700000000 \<lparr>ok = True, api_error = []\<rparr> (Some ''xoxb-1'') None
        (Some (Datetime 1600000000)) None None =
   Inl (ValueError ''Must specify `earliest_date` if `latest_date` is specified.'')"
  using init_latest_without_earliest_fails
          [of "Some (Datetime 1600000000)" "Datetime 1600000000" None
              None 1700000000 "\<lparr>ok = True, api_error = []\<rparr>" "Some ''xoxb-1''" None None]
  by simp

text \<open>
  Without \<^verbatim>\<open>latest_date\<close>, the upper bound of a reader is the clock's
  value whenever that is not zero, whatever \<^verbatim>\<open>latest_date_timestamp\<close> was
  passed; the lower bound, in contrast, takes the raw value passed.
\<close>

lemma init_latest_is_clock:
  assumes "now \<noteq> 0" and "init environ now res token earliest_date None earliest_ts latest_ts = Inr r"
  shows "latest_date_timestamp r = now"
  using assms by (auto simp: init_def float_or_def split: option.splits if_splits)

lemma init_earliest_timestamp_is_used:
  assumes "init environ now res token None None earliest_ts latest_ts = Inr r"
  shows "earliest_date_timestamp r = earliest_ts"
  using assms by (auto simp: init_def none_or_def Let_def split: option.splits if_splits)

text \<open>
  C7. The claim asks that a raw \<^verbatim>\<open>latest_date_timestamp\<close> be the upper
  bound when no \<^verbatim>\<open>latest_date\<close> is given. A construction at clock time
  1700000000 with \<^verbatim>\<open>latest_date_timestamp=100.0\<close> yields a reader whose
  upper bound is 1700000000: the operands of \<^verbatim>\<open>or\<close> at line 78 are in the
  opposite order to those at line 74.
\<close>

theorem init_ignores_latest_date_timestamp:
  "init None 1700000000 \<lparr>ok = True, api_error = []\<rparr> (Some ''xoxb-1'') None None None (Some 100) =
     Inr \<lparr>slack_token = ''xoxb-1'', earliest_date_timestamp = None,
          latest_date_timestamp = 1700000000\<rparr>"
  by (simp add: init_def float_or_def none_or_def)

section \<open>Channel patterns\<close>

text \<open>
  C8. A channel is selected exactly when it is listed and some pattern
  matches it: a pattern that compiles is matched by \<^verbatim>\<open>re.match\<close>, anchored
  at the start of the channel name; a pattern that does not compile is
  matched by equality with the name.
\<close>

theorem filter_channels_selects:
  "c \<in> set (filter_channels re channels patterns) \<longleftrightarrow>
     c \<in> set channels \<and>
     (\<exists>pattern \<in> set patterns.
        if re_compile re pattern then re_match re pattern (name c)
        else pattern = name c)"
  by (auto simp: filter_channels_def is_regex_def split: if_splits)

theorem filter_channels_selects_witness:
  "filter_channels literal_re
     [\<lparr>id_chan = ''A'', name = ''general''\<rparr>, \<lparr>id_chan = ''B'', name = ''dev-ops''\<rparr>,
      \<lparr>id_chan = ''C'', name = ''[''\<rparr>]
     [''dev'', ''[''] =
     [\<lparr>id_chan = ''C'', name = ''[''\<rparr>, \<lparr>id_chan = ''B'', name = ''dev-ops''\<rparr>] \<and>
   \<lparr>id_chan = ''A'', name = ''general''\<rparr> \<notin>
     set (filter_channels literal_re
       [\<lparr>id_chan = ''A'', name = ''general''\<rparr>, \<lparr>id_chan = ''B'', name = ''dev-ops''\<rparr>,
        \<lparr>id_chan = ''C'', name = ''[''\<rparr>]
       [''dev'', ''[''])"
proof -
  have "\<lparr>id_chan = ''A'', name = ''general''\<rparr> \<notin>
     set (filter_channels literal_re
       [\<lparr>id_chan = ''A'', name = ''general''\<rparr>, \<lparr>id_chan = ''B'', name = ''dev-ops''\<rparr>,
        \<lparr>id_chan = ''C'', name = ''[''\<rparr>]
       [''dev'', ''[''])"
    unfolding filter_channels_selects by (simp add: literal_re_def)
  moreover have "filter_channels literal_re
     [\<lparr>id_chan = ''A'', name = ''general''\<rparr>, \<lparr>id_chan = ''B'', name = ''dev-ops''\<rparr>,
      \<lparr>id_chan = ''C'', name = ''[''\<rparr>]
     [''dev'', ''[''] =
     [\<lparr>id_chan = ''C'', name = ''[''\<rparr>, \<lparr>id_chan = ''B'', name = ''dev-ops''\<rparr>]"
    by (simp add: filter_channels_def is_regex_def literal_re_def)
  ultimately show ?thesis by blast
qed

section \<open>Number of history requests\<close>

text \<open>The keyword arguments of a history request, written out.\<close>

lemma history_request_record:
  "history_request self ch cur =
     \<lparr>channel = ch, thread_ts = None, cursor = cur,
      latest = Some (latest_date_timestamp self), oldest = earliest_date_timestamp self\<rparr>"
  by (simp add: history_request_def Let_def)

lemma read_channel_loop_history:
  assumes served: "\<And>tr. length (history_requests tr) < length pages \<Longrightarrow>
             conversations_history client (w0 @ tr)
               \<lparr>channel = ch, thread_ts = None,
                cursor = (None # map response_metadata pages) ! length (history_requests tr),
                latest = Some (latest_date_timestamp self),
                oldest = earliest_date_timestamp self\<rparr> =
             Inr (pages ! length (history_requests tr))"
      and more: "\<And>k. k < length pages \<Longrightarrow> has_more (pages ! k) = (Suc k < length pages)"
  shows "read_channel_loop n client self ch acc cur (w0 @ tr) = Some (Inr (texts, w')) \<Longrightarrow>
         length (history_requests tr) < length pages \<Longrightarrow>
         cur = (None # map response_metadata pages) ! length (history_requests tr) \<Longrightarrow>
         \<exists>ext. w' = w0 @ tr @ ext \<and>
           history_requests ext =
             map (history_request self ch)
               (cur # map response_metadata (drop (length (history_requests tr)) (butlast pages)))"
proof (induction n arbitrary: acc cur tr)
  case 0
  then show ?case by simp
next
  case (Suc n)
  let ?k = "length (history_requests tr)"
  let ?r = "history_request self ch cur"
  let ?p = "pages ! ?k"
  have resp: "conversations_history client (w0 @ tr) ?r = Inr ?p"
    using served[OF Suc.prems(2)] Suc.prems(3) by (simp add: history_request_record)
  from Suc.prems(1) resp obtain ts_texts w2 where
    threads: "read_messages n client self ch (messages ?p)
                ((w0 @ tr) @ [ConversationsHistory ?r] @ [LogInfo]) = Some (Inr (ts_texts, w2))"
    by (auto split: option.splits sum.splits)
  from read_messages_no_history[OF threads] obtain e1
    where e1: "w2 = ((w0 @ tr) @ [ConversationsHistory ?r] @ [LogInfo]) @ e1" "history_requests e1 = []"
    by blast
  show ?case
  proof (cases "Suc ?k < length pages")
    case False
    with Suc.prems(2) have last: "Suc ?k = length pages" by simp
    then have "\<not> has_more ?p" using more[of ?k] by simp
    with Suc.prems(1) resp threads have "w' = w2" by simp
    moreover have "drop ?k (butlast pages) = []" using last by simp
    ultimately show ?thesis using e1 by (simp add: history_requests_append)
  next
    case True
    then have hm: "has_more ?p" using more[of ?k] by simp
    with Suc.prems(1) resp threads obtain c where
      c: "response_metadata ?p = Some c" and
      run: "read_channel_loop n client self ch (acc @ ts_texts) (Some c) w2 = Some (Inr (texts, w'))"
      by (auto split: option.splits)
    let ?tr' = "tr @ [ConversationsHistory ?r, LogInfo] @ e1"
    have w2: "w2 = w0 @ ?tr'" using e1 by simp
    have len: "length (history_requests ?tr') = Suc ?k"
      using e1 by (simp add: history_requests_append)
    have next_cur: "Some c = (None # map response_metadata pages) ! length (history_requests ?tr')"
      using len c Suc.prems(2) by simp
    from Suc.IH[of "acc @ ts_texts" "Some c" ?tr'] run w2 len True next_cur
    obtain ext where ext: "w' = w0 @ ?tr' @ ext"
      "history_requests ext = map (history_request self ch)
          (Some c # map response_metadata (drop (Suc ?k) (butlast pages)))"
      by auto
    have k: "?k < length (butlast pages)" using True by simp
    have "drop ?k (butlast pages) = ?p # drop (Suc ?k) (butlast pages)"
      using Cons_nth_drop_Suc[OF k] nth_butlast[OF k] by simp
    then show ?thesis using ext e1 c
      by (simp add: history_requests_append)
  qed
qed

lemma read_channel_loop_returns:
  assumes served: "\<And>tr. length (history_requests tr) < length pages \<Longrightarrow>
             conversations_history client (w0 @ tr)
               \<lparr>channel = ch, thread_ts = None,
                cursor = (None # map response_metadata pages) ! length (history_requests tr),
                latest = Some (latest_date_timestamp self),
                oldest = earliest_date_timestamp self\<rparr> =
             Inr (pages ! length (history_requests tr))"
      and more: "\<And>k. k < length pages \<Longrightarrow> has_more (pages ! k) = (Suc k < length pages)"
      and cursors: "\<And>k. Suc k < length pages \<Longrightarrow> response_metadata (pages ! k) \<noteq> None"
      and threads: "\<And>mts w1. \<exists>t w2. read_message m client self ch mts w1 = Some (Inr (t, w2))"
  shows "length pages - length (history_requests tr) = j \<Longrightarrow>
         length (history_requests tr) < length pages \<Longrightarrow>
         cur = (None # map response_metadata pages) ! length (history_requests tr) \<Longrightarrow>
         \<exists>texts w'. read_channel_loop (m + j) client self ch acc cur (w0 @ tr) =
                      Some (Inr (texts, w'))"
proof (induction j arbitrary: acc cur tr)
  case 0
  then show ?case by simp
next
  case (Suc j)
  let ?k = "length (history_requests tr)"
  let ?r = "history_request self ch cur"
  let ?p = "pages ! ?k"
  have resp: "conversations_history client (w0 @ tr) ?r = Inr ?p"
    using served[OF Suc.prems(2)] Suc.prems(3) by (simp add: history_request_record)
  from read_messages_returns[OF threads, of j "messages ?p"] obtain ts_texts w2 where
    threads_run: "read_messages (m + j) client self ch (messages ?p)
                ((w0 @ tr) @ [ConversationsHistory ?r] @ [LogInfo]) = Some (Inr (ts_texts, w2))"
    by blast
  from read_messages_no_history[OF threads_run] obtain e1
    where e1: "w2 = ((w0 @ tr) @ [ConversationsHistory ?r] @ [LogInfo]) @ e1" "history_requests e1 = []"
    by blast
  show ?case
  proof (cases "Suc ?k < length pages")
    case False
    with Suc.prems(2) have "\<not> has_more ?p" using more[of ?k] by simp
    with resp threads_run show ?thesis by simp
  next
    case True
    then have hm: "has_more ?p" using more[of ?k] by simp
    from cursors[OF True] obtain c where c: "response_metadata ?p = Some c" by blast
    let ?tr' = "tr @ [ConversationsHistory ?r, LogInfo] @ e1"
    have w2: "w2 = w0 @ ?tr'" using e1 by simp
    have len: "length (history_requests ?tr') = Suc ?k"
      using e1 by (simp add: history_requests_append)
    have next_cur: "Some c = (None # map response_metadata pages) ! length (history_requests ?tr')"
      using len c Suc.prems(2) by simp
    have "\<exists>texts w'. read_channel_loop (m + j) client self ch (acc @ ts_texts) (Some c) (w0 @ ?tr') =
                      Some (Inr (texts, w'))"
      using Suc.prems(1,2) True len next_cur by (intro Suc.IH) simp_all
    with resp threads_run hm c w2 show ?thesis by simp
  qed
qed

text \<open>
  C9. Let a channel have the pages \<open>pages\<close>, with \<^verbatim>\<open>has_more\<close> true on all
  but the last, and let the platform answer the request for each page with
  that page: the request of this reader for this channel that carries no
  cursor for the first page and, for a later page, the cursor the page before
  it names. Nothing is assumed of the answer to any other request, so the
  platform may answer by cursor. Then a channel fetch that returns has issued
  exactly one history request per page, these requests in this order; with a
  single page that is one request. And the fetch does return, within the fuel
  of the thread reads plus one iteration per page, when the threads return
  and every page but the last names its next cursor.
\<close>

theorem channel_with_N_pages:
  assumes served: "\<forall>tr. length (history_requests tr) < length pages \<longrightarrow>
             conversations_history client (w @ tr)
               \<lparr>channel = channel_id, thread_ts = None,
                cursor = (None # map response_metadata pages) ! length (history_requests tr),
                latest = Some (latest_date_timestamp self),
                oldest = earliest_date_timestamp self\<rparr> =
             Inr (pages ! length (history_requests tr))"
      and more: "\<forall>k < length pages. has_more (pages ! k) = (Suc k < length pages)"
      and nonempty: "pages \<noteq> []"
  shows "(\<forall>n content w'. read_channel n client self channel_id reverse_chronological w =
                        Some (Inr (content, w')) \<longrightarrow>
           (\<exists>ext. w' = w @ ext \<and>
              history_requests ext =
                map (\<lambda>c. \<lparr>channel = channel_id, thread_ts = None, cursor = c,
                          latest = Some (latest_date_timestamp self),
                          oldest = earliest_date_timestamp self\<rparr>)
                  (None # map response_metadata (butlast pages)) \<and>
              length (history_requests ext) = length pages)) \<and>
         ((\<forall>k. Suc k < length pages \<longrightarrow> response_metadata (pages ! k) \<noteq> None) \<and>
          (\<forall>message_ts w1. \<exists>t w2.
              read_message m client self channel_id message_ts w1 = Some (Inr (t, w2))) \<longrightarrow>
          (\<exists>content w'. read_channel (m + length pages) client self channel_id reverse_chronological w =
                        Some (Inr (content, w'))))"
proof (intro conjI allI impI)
  fix n content w'
  assume "read_channel n client self channel_id reverse_chronological w = Some (Inr (content, w'))"
  then obtain texts where
    loop: "read_channel_loop n client self channel_id [] None (w @ []) = Some (Inr (texts, w'))"
    by (auto simp: read_channel_def split: option.splits sum.splits)
  have "\<exists>ext. w' = w @ [] @ ext \<and>
           history_requests ext =
             map (history_request self channel_id)
               (None # map response_metadata (drop (length (history_requests [])) (butlast pages)))"
    using served more nonempty by (intro read_channel_loop_history[OF _ _ loop]) auto
  then obtain ext where ext: "w' = w @ ext"
    "history_requests ext =
       map (history_request self channel_id) (None # map response_metadata (butlast pages))"
    by auto
  from ext(2) nonempty
  have "history_requests ext =
          map (\<lambda>c. \<lparr>channel = channel_id, thread_ts = None, cursor = c,
                          latest = Some (latest_date_timestamp self),
                          oldest = earliest_date_timestamp self\<rparr>)
            (None # map response_metadata (butlast pages)) \<and>
        length (history_requests ext) = length pages"
    by (simp add: history_request_record)
  with ext(1)
  show "\<exists>ext. w' = w @ ext \<and>
              history_requests ext =
                map (\<lambda>c. \<lparr>channel = channel_id, thread_ts = None, cursor = c,
                          latest = Some (latest_date_timestamp self),
                          oldest = earliest_date_timestamp self\<rparr>)
                  (None # map response_metadata (butlast pages)) \<and>
              length (history_requests ext) = length pages"
    by blast
next
  assume a: "(\<forall>k. Suc k < length pages \<longrightarrow> response_metadata (pages ! k) \<noteq> None) \<and>
          (\<forall>message_ts w1. \<exists>t w2.
              read_message m client self channel_id message_ts w1 = Some (Inr (t, w2)))"
  have "\<exists>texts w'. read_channel_loop (m + length pages) client self channel_id [] None (w @ []) =
                      Some (Inr (texts, w'))"
    using served more nonempty a by (intro read_channel_loop_returns) auto
  then show "\<exists>content w'. read_channel (m + length pages) client self channel_id reverse_chronological w =
                        Some (Inr (content, w'))"
    by (auto simp: read_channel_def)
qed

lemma two_page_served:
  "\<forall>tr. length (history_requests tr) < length two_pages \<longrightarrow>
     conversations_history two_page_client ([] @ tr)
       \<lparr>channel = ''C1'', thread_ts = None,
        cursor = (None # map response_metadata two_pages) ! length (history_requests tr),
        latest = Some (latest_date_timestamp open_reader),
        oldest = earliest_date_timestamp open_reader\<rparr> =
     Inr (two_pages ! length (history_requests tr))"
  by (auto simp: two_page_client_def quiet_client_def two_pages_def less_Suc_eq)

theorem channel_with_N_pages_witness:
  "read_channel (Suc (Suc 0)) two_page_client open_reader ''C1'' True [] =
     Some (Inr ([],
       [ConversationsHistory
          \<lparr>channel = ''C1'', thread_ts = None, cursor = None,
           latest = Some 1700000000, oldest = None\<rparr>,
        LogInfo,
        ConversationsHistory
          \<lparr>channel = ''C1'', thread_ts = None, cursor = Some ''c1'',
           latest = Some 1700000000, oldest = None\<rparr>,
        LogInfo])) \<and>
   length two_pages = 2 \<and>
   (\<exists>content w'. read_channel (Suc 0 + length two_pages) two_page_client open_reader ''C1'' True [] =
        Some (Inr (content, w')))"
  (is "?run = Some (Inr (?text, ?tr)) \<and> _ \<and> ?returns")
proof -
  have run: "?run = Some (Inr (?text, ?tr))"
    by (simp add: read_channel_def two_page_client_def quiet_client_def two_pages_def
          empty_page_def history_request_def open_reader_def)
  have ne: "two_pages \<noteq> []" by (simp add: two_pages_def)
  have more: "\<forall>k < length two_pages. has_more (two_pages ! k) = (Suc k < length two_pages)"
    by (auto simp: two_pages_def less_Suc_eq)
  have cursors: "\<forall>k. Suc k < length two_pages \<longrightarrow> response_metadata (two_pages ! k) \<noteq> None"
    by (simp add: two_pages_def)
  have threads: "\<forall>message_ts w1. \<exists>t w2.
      read_message (Suc 0) two_page_client open_reader ''C1'' message_ts w1 = Some (Inr (t, w2))"
    by (simp add: read_message_def two_page_client_def quiet_client_def empty_page_def)
  note inst = channel_with_N_pages[OF two_page_served more ne, of True "Suc 0"]
  from inst run
  have "\<exists>ext. ?tr = [] @ ext \<and> length (history_requests ext) = length two_pages"
    by blast
  then have "length (history_requests ?tr) = length two_pages"
    by (metis append_Nil)
  moreover from inst cursors threads have ?returns by blast
  ultimately show ?thesis using run by simp
qed

section \<open>Failure of the channel listing\<close>

text \<open>
  C10. When \<^verbatim>\<open>conversations_list\<close> fails, \<^verbatim>\<open>_get_channel_ids\<close> returns
  the empty list after logging the error. A load call with patterns only
  then logs a warning and returns no document, without raising; a load call
  with ids and patterns reads the explicit ids alone.
\<close>

theorem list_channels_error_is_swallowed:
  assumes "conversations_list client w = Inl e" and "patterns \<noteq> []"
  shows "get_channel_ids client re patterns w =
           ([], w @ [ConversationsList, LogError, LogInfo, LogInfo]) \<and>
         (opt_list channel_ids = [] \<longrightarrow>
            load_data n client re set_order self channel_ids (Some patterns)
              reverse_chronological w =
            Some (Inr ([], w @ [ConversationsList, LogError, LogInfo, LogInfo, LogWarning]))) \<and>
         (opt_list channel_ids \<noteq> [] \<longrightarrow>
            load_data n client re set_order self channel_ids (Some patterns)
              reverse_chronological w =
            read_channels n client self (list_set set_order (opt_list channel_ids))
              reverse_chronological
              (w @ [ConversationsList, LogError, LogInfo, LogInfo, LogWarning]))"
proof -
  have g: "get_channel_ids client re patterns w =
           ([], w @ [ConversationsList, LogError, LogInfo, LogInfo])"
    using assms(1) by (simp add: get_channel_ids_def list_channels_def filter_channels_def)
  then show ?thesis using assms(2) by (simp add: load_data_def)
qed

theorem list_channels_error_is_swallowed_witness:
  "load_data (Suc 0) list_fails_client literal_re insertion_order open_reader
     None (Some [''dev'']) True [] =
   Some (Inr ([], [ConversationsList, LogError, LogInfo, LogInfo, LogWarning])) \<and>
   load_data (Suc 0) list_fails_client literal_re insertion_order open_reader
     (Some [''A'']) (Some [''dev'']) True [] =
   Some (Inr ([\<lparr>id_doc = ''A'', text_doc = [], metadata = [(''channel'', ''A'')]\<rparr>],
     [ConversationsList, LogError, LogInfo, LogInfo, LogWarning,
      ConversationsHistory (history_request open_reader ''A'' None), LogInfo]))"
proof -
  have l: "conversations_list list_fails_client [] =
           Inl \<lparr>error = ''missing_scope'', retry_after = None\<rparr>"
    by (simp add: list_fails_client_def quiet_client_def)
  have p: "[''dev''] \<noteq> []" by simp
  from list_channels_error_is_swallowed[OF l p, of literal_re None "Suc 0" insertion_order open_reader True]
       list_channels_error_is_swallowed[OF l p, of literal_re "Some [''A'']" "Suc 0" insertion_order open_reader True]
  show ?thesis
    by (simp add: list_set_def insertion_order_def read_channel_def list_fails_client_def
          quiet_client_def empty_page_def)
qed

end
